theory Spec2Isabelle
  imports Complex_Main
begin

section \<open>The playback controller of sonora: data model\<close>

text \<open>
  The development embeds \<^verbatim>\<open>BasicMusicPlayer\<close>
  (\<^verbatim>\<open>src/core/playback/BasicMusicPlayer.cpp\<close>, with the declarations of
  \<^verbatim>\<open>BasicMusicPlayer.h\<close> and \<^verbatim>\<open>IMusicPlayer.h\<close>).

  Conventions of the embedding.
  \<^item> Every member function is a function from the member variables before the call to an
    \<open>outcome\<close>: the member variables after it, tagged with whether the call returned or
    left by a C++ exception. The calls of the class that can throw are the virtual
    observer callbacks, which the notify functions invoke without a handler, and
    \<^verbatim>\<open>mPlaybackThread.join()\<close> when the worker thread itself executes it.
  \<^item> Each member function and each step of the worker thread is one atomic transformation
    of the member variables. The interleaving of the worker with the calling thread inside
    one call and the mutexes are outside the model. Of \<^verbatim>\<open>mPlaybackThread\<close> the
    value of \<^verbatim>\<open>joinable()\<close> is kept, and \<^verbatim>\<open>stop()\<close>, \<^verbatim>\<open>play()\<close> and
    \<^verbatim>\<open>next()\<close> take the calling thread as a parameter, since a join differs with
    it. Failures of allocation and of thread creation are not modelled.
  \<^item> A \<^verbatim>\<open>double\<close> is read as a real number (the values used below, such as
    \<open>0\<close>, \<open>180\<close> and \<open>-1\<close>, are doubles).
  \<^item> A \<^verbatim>\<open>std::shared_ptr<IPlaybackObserver>\<close> is the address it holds; the
    comparison \<^verbatim>\<open>obs == observer\<close> of the source is equality of addresses.
  \<^item> The FFmpeg members (\<^verbatim>\<open>mFormatContext\<close>, \<^verbatim>\<open>mCodecContext\<close>,
    \<^verbatim>\<open>mSwrContext\<close>, \<^verbatim>\<open>mAudioStream\<close>) are written by the constructor only and
    read nowhere; they are left out.
\<close>

datatype RepeatMode = None_mode | Single | All

text \<open>The five callbacks of \<^verbatim>\<open>IPlaybackObserver\<close>, with their arguments.\<close>

datatype event =
    PlaybackStarted
  | PlaybackPaused
  | PlaybackStopped
  | TrackChanged string
  | PlaybackProgress real real

type_synonym observer = nat

text \<open>
  The member variables, followed by what the class does to its surroundings:
  \<open>observer_throws\<close> is the behaviour of the observer objects (whether the callback of
  the observer at an address throws on an event), \<open>fired\<close> lists the notify functions
  entered, \<open>delivered\<close> the callbacks invoked, and \<open>opened\<close> the calls of
  \<^verbatim>\<open>openAudioFile\<close>, each in the order of occurrence.
\<close>

record player =
  mIsPlaying :: bool
  mIsPaused :: bool
  mShouldStop :: bool
  mCurrentPosition :: real
  mDuration :: real
  mCurrentTrack :: string
  mRepeatMode :: RepeatMode
  mShuffleMode :: bool
  mQueue :: "string list"
  mObservers :: "observer list"
  mPlaybackThread :: bool
  observer_throws :: "observer \<Rightarrow> event \<Rightarrow> bool"
  fired :: "event list"
  delivered :: "(observer \<times> event) list"
  opened :: "string list"

datatype outcome = Returned player | Thrown player

fun final :: "outcome \<Rightarrow> player" where
  "final (Returned s) = s"
| "final (Thrown s) = s"

fun returns :: "outcome \<Rightarrow> bool" where
  "returns (Returned s) = True"
| "returns (Thrown s) = False"

text \<open>Sequencing of two statements: an exception of the first skips the second.\<close>

fun and_then :: "outcome \<Rightarrow> (player \<Rightarrow> outcome) \<Rightarrow> outcome" where
  "and_then (Returned s) f = f s"
| "and_then (Thrown s) f = Thrown s"

text \<open>The three states of the specification, read off the two flags.\<close>

datatype playback_state = Stopped | Playing | Paused

definition state_of :: "player \<Rightarrow> playback_state" where
  "state_of s = (if \<not> mIsPlaying s then Stopped else if mIsPaused s then Paused else Playing)"

text \<open>The constructor, for a given behaviour of the observer objects.\<close>

definition BasicMusicPlayer :: "(observer \<Rightarrow> event \<Rightarrow> bool) \<Rightarrow> player" where
  "BasicMusicPlayer th =
     \<lparr> mIsPlaying = False, mIsPaused = False, mShouldStop = False,
       mCurrentPosition = 0, mDuration = 0, mCurrentTrack = [],
       mRepeatMode = None_mode, mShuffleMode = False,
       mQueue = [], mObservers = [], mPlaybackThread = False,
       observer_throws = th, fired = [], delivered = [], opened = [] \<rparr>"

section \<open>Observer registry and notification\<close>

definition addObserver :: "observer \<Rightarrow> player \<Rightarrow> player" where
  "addObserver ob s = s\<lparr>mObservers := mObservers s @ [ob]\<rparr>"

text \<open>
  \<^verbatim>\<open>mObservers.erase(std::remove_if(begin, end, pred), end)\<close>: \<^verbatim>\<open>remove_if\<close>
  moves the elements that do not satisfy the predicate to the front, in their order, and
  returns the end of that range; \<^verbatim>\<open>erase\<close> drops everything behind it.
\<close>

fun remove_if :: "('a \<Rightarrow> bool) \<Rightarrow> 'a list \<Rightarrow> 'a list" where
  "remove_if p [] = []"
| "remove_if p (x # xs) = (if p x then remove_if p xs else x # remove_if p xs)"

definition removeObserver :: "observer \<Rightarrow> player \<Rightarrow> player" where
  "removeObserver ob s = s\<lparr>mObservers := remove_if (\<lambda>obs. obs = ob) (mObservers s)\<rparr>"

text \<open>
  The range-for loop shared by the five notify functions: the callback of each observer is
  invoked in turn; one that throws ends the loop and the function, as there is no handler.
\<close>

fun notify_loop :: "event \<Rightarrow> observer list \<Rightarrow> player \<Rightarrow> outcome" where
  "notify_loop e [] s = Returned s"
| "notify_loop e (ob # obs) s =
     (if observer_throws s ob e
      then Thrown (s\<lparr>delivered := delivered s @ [(ob, e)]\<rparr>)
      else notify_loop e obs (s\<lparr>delivered := delivered s @ [(ob, e)]\<rparr>))"

definition notify :: "event \<Rightarrow> player \<Rightarrow> outcome" where
  "notify e s = notify_loop e (mObservers s) (s\<lparr>fired := fired s @ [e]\<rparr>)"

definition notifyPlaybackStarted :: "player \<Rightarrow> outcome" where
  "notifyPlaybackStarted s = notify PlaybackStarted s"

definition notifyPlaybackPaused :: "player \<Rightarrow> outcome" where
  "notifyPlaybackPaused s = notify PlaybackPaused s"

definition notifyPlaybackStopped :: "player \<Rightarrow> outcome" where
  "notifyPlaybackStopped s = notify PlaybackStopped s"

definition notifyTrackChanged :: "string \<Rightarrow> player \<Rightarrow> outcome" where
  "notifyTrackChanged uri s = notify (TrackChanged uri) s"

definition notifyPlaybackProgress :: "real \<Rightarrow> real \<Rightarrow> player \<Rightarrow> outcome" where
  "notifyPlaybackProgress position duration s = notify (PlaybackProgress position duration) s"

section \<open>The control operations\<close>

text \<open>
  The thread that executes a call: the worker that \<^verbatim>\<open>play()\<close> started, which calls
  \<^verbatim>\<open>play()\<close> and \<^verbatim>\<open>next()\<close> at the end of a track, or any other thread.
\<close>

datatype caller = ClientThread | WorkerThread

text \<open>
  \<^verbatim>\<open>if (mPlaybackThread.joinable()) mPlaybackThread.join();\<close> Executed by another
  thread, the join waits for the worker and leaves the handle not joinable. Executed by the
  worker, it is a join of the running thread with itself, for which
  \<^verbatim>\<open>std::thread::join\<close> throws \<^verbatim>\<open>std::system_error\<close>
  (\<^verbatim>\<open>resource_deadlock_would_occur\<close>); nothing in the class catches it.
\<close>

definition join_if_joinable :: "caller \<Rightarrow> player \<Rightarrow> outcome" where
  "join_if_joinable c s =
     (if mPlaybackThread s then
        (case c of
           WorkerThread \<Rightarrow> Thrown s
         | ClientThread \<Rightarrow> Returned (s\<lparr>mPlaybackThread := False\<rparr>))
      else Returned s)"

text \<open>\<^verbatim>\<open>stop()\<close>, executed by the given thread.\<close>

definition stop_on :: "caller \<Rightarrow> player \<Rightarrow> outcome" where
  "stop_on c s =
     (if mIsPlaying s then
        and_then
          (join_if_joinable c
             (s\<lparr>mShouldStop := True, mIsPlaying := False, mIsPaused := False\<rparr>))
          (\<lambda>s1. notifyPlaybackStopped (s1\<lparr>mCurrentTrack := [], mCurrentPosition := 0\<rparr>))
      else Returned s)"

text \<open>\<^verbatim>\<open>stop()\<close> called from a thread other than the worker.\<close>

definition stop :: "player \<Rightarrow> outcome" where
  "stop s = stop_on ClientThread s"

text \<open>
  \<^verbatim>\<open>play(const std::string& uri)\<close> takes its argument by reference. Callers
  outside the class pass a string of their own; \<^verbatim>\<open>previous()\<close> and the worker
  pass the member \<^verbatim>\<open>mCurrentTrack\<close> itself, which the \<^verbatim>\<open>stop()\<close> at the
  head of the body overwrites before the body reads the argument. The argument is therefore
  read where the body reads it.
\<close>

datatype uri_arg = ByValue string | Ref_mCurrentTrack

fun deref :: "uri_arg \<Rightarrow> player \<Rightarrow> string" where
  "deref (ByValue uri) s = uri"
| "deref Ref_mCurrentTrack s = mCurrentTrack s"

text \<open>\<^verbatim>\<open>play()\<close>, executed by the given thread.\<close>

definition play_arg_on :: "caller \<Rightarrow> uri_arg \<Rightarrow> player \<Rightarrow> outcome" where
  "play_arg_on c a s =
     and_then (stop_on c s) (\<lambda>s1.
       let s2 = s1\<lparr>mQueue := [deref a s1]\<rparr>;
           s3 = s2\<lparr>mCurrentTrack := deref a s2, mIsPlaying := True,
                  mIsPaused := False, mShouldStop := False\<rparr>
       in and_then (join_if_joinable c s3) (\<lambda>s4.
            let s5 = s4\<lparr>mPlaybackThread := True\<rparr>
            in and_then (notifyTrackChanged (deref a s5) s5) notifyPlaybackStarted))"

text \<open>\<^verbatim>\<open>play()\<close> called from a thread other than the worker.\<close>

definition play_arg :: "uri_arg \<Rightarrow> player \<Rightarrow> outcome" where
  "play_arg a s = play_arg_on ClientThread a s"

definition play :: "string \<Rightarrow> player \<Rightarrow> outcome" where
  "play uri s = play_arg (ByValue uri) s"

definition pause :: "player \<Rightarrow> outcome" where
  "pause s =
     (if mIsPlaying s \<and> \<not> mIsPaused s then notifyPlaybackPaused (s\<lparr>mIsPaused := True\<rparr>)
      else Returned s)"

definition resume :: "player \<Rightarrow> outcome" where
  "resume s =
     (if mIsPlaying s \<and> mIsPaused s then notifyPlaybackStarted (s\<lparr>mIsPaused := False\<rparr>)
      else Returned s)"

text \<open>
  \<^verbatim>\<open>next()\<close>; the name is an Isar keyword, hence the prefix. After the size test the
  source tests \<^verbatim>\<open>mQueue.empty()\<close> once more before it reads the front.
\<close>

definition player_next_on :: "caller \<Rightarrow> player \<Rightarrow> outcome" where
  "player_next_on c s =
     (if length (mQueue s) \<le> 1 then stop_on c s
      else (case mQueue s of
              [] \<Rightarrow> Returned s
            | nextTrack # rest \<Rightarrow> play_arg_on c (ByValue nextTrack) (s\<lparr>mQueue := rest\<rparr>)))"

text \<open>\<^verbatim>\<open>next()\<close> called from a thread other than the worker.\<close>

definition player_next :: "player \<Rightarrow> outcome" where
  "player_next s = player_next_on ClientThread s"

definition previous :: "player \<Rightarrow> outcome" where
  "previous s = (if mCurrentTrack s \<noteq> [] then play_arg Ref_mCurrentTrack s else Returned s)"

definition seek :: "real \<Rightarrow> player \<Rightarrow> outcome" where
  "seek position s =
     notifyPlaybackProgress position (mDuration s) (s\<lparr>mCurrentPosition := position\<rparr>)"

definition enqueue :: "string \<Rightarrow> player \<Rightarrow> player" where
  "enqueue uri s = s\<lparr>mQueue := mQueue s @ [uri]\<rparr>"

definition clearQueue :: "player \<Rightarrow> player" where
  "clearQueue s = s\<lparr>mQueue := []\<rparr>"

definition setRepeatMode :: "RepeatMode \<Rightarrow> player \<Rightarrow> player" where
  "setRepeatMode mode s = s\<lparr>mRepeatMode := mode\<rparr>"

definition setShuffleMode :: "bool \<Rightarrow> player \<Rightarrow> player" where
  "setShuffleMode shuffle s = s\<lparr>mShuffleMode := shuffle\<rparr>"

definition getCurrentPosition :: "player \<Rightarrow> real" where
  "getCurrentPosition s = mCurrentPosition s"

definition getDuration :: "player \<Rightarrow> real" where
  "getDuration s = mDuration s"

definition isPlaying :: "player \<Rightarrow> bool" where
  "isPlaying s = (mIsPlaying s \<and> \<not> mIsPaused s)"

section \<open>The playback worker\<close>

text \<open>
  \<^verbatim>\<open>openAudioFile\<close> as the repository has it: a stub that reports success. The
  worker below takes the rendering backend as a parameter, so that its failure branch is
  covered as well; \<open>openAudioFile\<close> is the instance the repository ships.
\<close>

definition openAudioFile :: "string \<Rightarrow> bool" where
  "openAudioFile uri = True"

text \<open>Where the thread function stands between two of its steps.\<close>

datatype worker = Polling | Retired

text \<open>
  \<^verbatim>\<open>playbackThreadFunction\<close>, from its entry to the head of the loop: the single
  call of the backend, the failure branch, and the initialisation of duration and position.
\<close>

definition playbackThreadFunction_open :: "(string \<Rightarrow> bool) \<Rightarrow> player \<Rightarrow> worker \<times> outcome" where
  "playbackThreadFunction_open backend s =
     (let s1 = s\<lparr>opened := opened s @ [mCurrentTrack s]\<rparr>
      in if \<not> backend (mCurrentTrack s1)
         then (Retired, notifyPlaybackStopped (s1\<lparr>mIsPlaying := False\<rparr>))
         else (Polling, Returned (s1\<lparr>mDuration := 180, mCurrentPosition := 0\<rparr>)))"

text \<open>
  The completion policy, entered when the position has reached the duration: restart under
  \<^verbatim>\<open>RepeatMode::Single\<close>, otherwise \<^verbatim>\<open>next()\<close>, preceded under
  \<^verbatim>\<open>RepeatMode::All\<close> by \<^verbatim>\<open>enqueue(mCurrentTrack)\<close>. These calls are
  executed by the worker. An exception that leaves them leaves the thread function too, upon
  which the C++ runtime calls \<^verbatim>\<open>std::terminate\<close>.
\<close>

definition track_finished :: "player \<Rightarrow> outcome" where
  "track_finished s =
     (if mRepeatMode s = Single then play_arg_on WorkerThread Ref_mCurrentTrack s
      else player_next_on WorkerThread
             (if mRepeatMode s = All then enqueue (mCurrentTrack s) s else s))"

text \<open>
  One pass of the \<^verbatim>\<open>while\<close> loop; \<open>elapsed\<close> is the reading of the steady clock
  since the loop was entered, in seconds. When the loop condition fails the function closes
  the file and returns.
\<close>

definition playbackThreadFunction_iteration :: "real \<Rightarrow> player \<Rightarrow> worker \<times> outcome" where
  "playbackThreadFunction_iteration elapsed s =
     (if mIsPlaying s \<and> \<not> mShouldStop s then
        (if \<not> mIsPaused s then
           (case notifyPlaybackProgress elapsed (mDuration s) (s\<lparr>mCurrentPosition := elapsed\<rparr>) of
              Thrown s1 \<Rightarrow> (Retired, Thrown s1)
            | Returned s1 \<Rightarrow>
                if mCurrentPosition s1 \<ge> mDuration s1 then (Retired, track_finished s1)
                else (Polling, Returned s1))
         else (Polling, Returned s))
      else (Retired, Returned s))"

section \<open>Sequences of calls\<close>

text \<open>
  The public operations of \<^verbatim>\<open>IMusicPlayer\<close> that change the player, and the two
  steps of the worker, as the actions of a run. A caller that catches the exception of an
  observer goes on with the player as the exception left it.
\<close>

datatype action =
    Play string | Pause | Resume | Stop | Next | Previous | Seek real
  | Enqueue string | ClearQueue | SetRepeatMode RepeatMode | SetShuffleMode bool
  | AddObserver observer | RemoveObserver observer
  | WorkerOpens | WorkerPolls real

fun exec :: "(string \<Rightarrow> bool) \<Rightarrow> action \<Rightarrow> player \<Rightarrow> outcome" where
  "exec backend (Play uri) s = play uri s"
| "exec backend Pause s = pause s"
| "exec backend Resume s = resume s"
| "exec backend Stop s = stop s"
| "exec backend Next s = player_next s"
| "exec backend Previous s = previous s"
| "exec backend (Seek position) s = seek position s"
| "exec backend (Enqueue uri) s = Returned (enqueue uri s)"
| "exec backend ClearQueue s = Returned (clearQueue s)"
| "exec backend (SetRepeatMode mode) s = Returned (setRepeatMode mode s)"
| "exec backend (SetShuffleMode shuffle) s = Returned (setShuffleMode shuffle s)"
| "exec backend (AddObserver ob) s = Returned (addObserver ob s)"
| "exec backend (RemoveObserver ob) s = Returned (removeObserver ob s)"
| "exec backend WorkerOpens s = snd (playbackThreadFunction_open backend s)"
| "exec backend (WorkerPolls elapsed) s = snd (playbackThreadFunction_iteration elapsed s)"

fun run :: "(string \<Rightarrow> bool) \<Rightarrow> action list \<Rightarrow> player \<Rightarrow> player" where
  "run backend [] s = s"
| "run backend (a # as) s = run backend as (final (exec backend a s))"

text \<open>The real arguments of an action that end up in the position.\<close>

fun nonneg_time :: "action \<Rightarrow> bool" where
  "nonneg_time (Seek position) = (0 \<le> position)"
| "nonneg_time (WorkerPolls elapsed) = (0 \<le> elapsed)"
| "nonneg_time a = True"

section \<open>Auxiliary definitions\<close>

text \<open>
  The observers whose callback \<open>notify_loop\<close> invokes for an event: those in front of the
  first one that throws, and that one.
\<close>

fun invoked :: "(observer \<Rightarrow> event \<Rightarrow> bool) \<Rightarrow> event \<Rightarrow> observer list \<Rightarrow> observer list" where
  "invoked th e [] = []"
| "invoked th e (ob # obs) = ob # (if th ob e then [] else invoked th e obs)"

text \<open>
  Fixtures. \<open>quiet\<close>: observers that never throw, as \<^verbatim>\<open>TestPlaybackObserver\<close> of
  \<^verbatim>\<open>tests/unit/MusicPlayerTest.cpp\<close>. \<open>faulty\<close>: the observer at address 1 throws
  from \<^verbatim>\<open>onPlaybackPaused\<close>. \<open>no_backend\<close>: a rendering backend that opens nothing.
\<close>

definition quiet :: "observer \<Rightarrow> event \<Rightarrow> bool" where
  "quiet ob e = False"

definition faulty :: "observer \<Rightarrow> event \<Rightarrow> bool" where
  "faulty ob e = (ob = 1 \<and> e = PlaybackPaused)"

definition no_backend :: "string \<Rightarrow> bool" where
  "no_backend uri = False"

text \<open>A player with one quiet observer; the same after \<^verbatim>\<open>play("t.mp3")\<close>.\<close>

definition observed_player :: player where
  "observed_player = addObserver 1 (BasicMusicPlayer quiet)"

definition playing_player :: player where
  "playing_player = final (play ''t.mp3'' observed_player)"

text \<open>
  A player whose worker has opened the track, with the repeat mode of the constructor, and
  the same under \<^verbatim>\<open>RepeatMode::All\<close>.
\<close>

definition opened_player :: player where
  "opened_player = final (exec openAudioFile WorkerOpens playing_player)"

definition repeating_player :: player where
  "repeating_player =
     setRepeatMode All (final (exec openAudioFile WorkerOpens playing_player))"

text \<open>Three observers, the middle one faulty, while a track plays.\<close>

definition faulty_player :: player where
  "faulty_player =
     final (play ''t.mp3''
       (addObserver 3 (addObserver 1 (addObserver 2 (BasicMusicPlayer faulty)))))"

text \<open>Two tracks enqueued on a player that has never played.\<close>

definition fresh_queue_player :: player where
  "fresh_queue_player = enqueue ''b.mp3'' (enqueue ''a.mp3'' (BasicMusicPlayer quiet))"

section \<open>Basic facts\<close>

lemma returns_final: "returns r \<Longrightarrow> r = Returned (final r)"
  by (cases r) simp_all

lemma remove_if_filter: "remove_if p xs = filter (\<lambda>x. \<not> p x) xs"
  by (induction xs) auto

lemma invoked_no_throw: "\<forall>ob\<in>set obs. \<not> th ob e \<Longrightarrow> invoked th e obs = obs"
  by (induction obs) auto

lemma invoked_split:
  "\<forall>ob\<in>set pre. \<not> th ob e \<Longrightarrow> th ob e \<Longrightarrow> invoked th e (pre @ ob # post) = pre @ [ob]"
  by (induction pre) auto

text \<open>The loop in closed form: it throws exactly if some registered observer does.\<close>

lemma notify_loop_eq:
  "notify_loop e obs s =
     (if \<exists>ob\<in>set obs. observer_throws s ob e then Thrown else Returned)
       (s\<lparr>delivered := delivered s @ map (\<lambda>ob. (ob, e)) (invoked (observer_throws s) e obs)\<rparr>)"
  by (induction obs arbitrary: s) auto

lemma notify_eq:
  "notify e s =
     (if \<exists>ob\<in>set (mObservers s). observer_throws s ob e then Thrown else Returned)
       (s\<lparr>fired := fired s @ [e],
          delivered := delivered s
            @ map (\<lambda>ob. (ob, e)) (invoked (observer_throws s) e (mObservers s))\<rparr>)"
  by (simp add: notify_def notify_loop_eq)

lemmas notify_defs = notifyPlaybackStarted_def notifyPlaybackPaused_def
  notifyPlaybackStopped_def notifyTrackChanged_def notifyPlaybackProgress_def

text \<open>The calls from a thread other than the worker, with the join carried out.\<close>

lemma join_client: "join_if_joinable ClientThread s = Returned (s\<lparr>mPlaybackThread := False\<rparr>)"
proof (cases "mPlaybackThread s")
  case True
  then show ?thesis by (simp add: join_if_joinable_def)
next
  case False
  then have "s\<lparr>mPlaybackThread := False\<rparr> = s" by (cases s) simp
  with False show ?thesis by (simp add: join_if_joinable_def)
qed

lemma stop_client:
  "stop s =
     (if mIsPlaying s then
        notifyPlaybackStopped
          (s\<lparr>mShouldStop := True, mIsPlaying := False, mIsPaused := False,
             mPlaybackThread := False, mCurrentTrack := [], mCurrentPosition := 0\<rparr>)
      else Returned s)"
  by (simp add: stop_def stop_on_def join_client)

lemma play_arg_client:
  "play_arg a s =
     and_then (stop s) (\<lambda>s1.
       let s2 = s1\<lparr>mQueue := [deref a s1]\<rparr>;
           s3 = s2\<lparr>mCurrentTrack := deref a s2, mIsPlaying := True,
                  mIsPaused := False, mShouldStop := False, mPlaybackThread := True\<rparr>
       in and_then (notifyTrackChanged (deref a s3) s3) notifyPlaybackStarted)"
  by (cases "stop_on ClientThread s")
     (simp_all add: play_arg_def play_arg_on_def stop_def join_client Let_def)

lemma player_next_client:
  "player_next s =
     (if length (mQueue s) \<le> 1 then stop s
      else (case mQueue s of
              [] \<Rightarrow> Returned s
            | nextTrack # rest \<Rightarrow> play nextTrack (s\<lparr>mQueue := rest\<rparr>)))"
  by (simp add: player_next_def player_next_on_def stop_def play_def play_arg_def
      split: list.splits)

lemmas op_defs = play_def play_arg_client stop_client pause_def resume_def player_next_client
  previous_def seek_def enqueue_def clearQueue_def setRepeatMode_def setShuffleMode_def
  addObserver_def removeObserver_def notify_defs notify_eq Let_def isPlaying_def state_of_def
  getCurrentPosition_def

lemmas fixture_defs = BasicMusicPlayer_def quiet_def faulty_def no_backend_def
  observed_player_def playing_player_def repeating_player_def
  faulty_player_def fresh_queue_player_def opened_player_def openAudioFile_def
  playbackThreadFunction_open_def

lemma stop_final:
  "final (stop s) =
     (if mIsPlaying s then
        s\<lparr>mShouldStop := True, mIsPlaying := False, mIsPaused := False,
          mPlaybackThread := False, mCurrentTrack := [], mCurrentPosition := 0,
          fired := fired s @ [PlaybackStopped],
          delivered := delivered s @ map (\<lambda>ob. (ob, PlaybackStopped))
             (invoked (observer_throws s) PlaybackStopped (mObservers s))\<rparr>
      else s)"
  by (simp add: stop_client notify_defs notify_eq)



lemma fold_enqueue: "fold enqueue uris s = s\<lparr>mQueue := mQueue s @ uris\<rparr>"
  by (induction uris arbitrary: s) (simp_all add: enqueue_def)

text \<open>
  \<^verbatim>\<open>stop()\<close> executed by the worker: with the thread joinable the join throws once
  the three flags are set, before the track is cleared and before any notification.
\<close>

lemma stop_on_worker:
  "stop_on WorkerThread s =
     (if mIsPlaying s then
        (if mPlaybackThread s
         then Thrown (s\<lparr>mShouldStop := True, mIsPlaying := False, mIsPaused := False\<rparr>)
         else notifyPlaybackStopped
                (s\<lparr>mShouldStop := True, mIsPlaying := False, mIsPaused := False,
                   mCurrentTrack := [], mCurrentPosition := 0\<rparr>))
      else Returned s)"
  by (simp add: stop_on_def join_if_joinable_def)

text \<open>What \<^verbatim>\<open>play()\<close> has established when it returns, whichever thread executed it.\<close>

lemma play_arg_on_cases:
  "play_arg_on c a s = Returned s' \<Longrightarrow>
     mQueue s' = [mCurrentTrack s'] \<and> mIsPlaying s' \<and> \<not> mIsPaused s' \<and>
     (\<forall>uri. a = ByValue uri \<longrightarrow> mCurrentTrack s' = uri)"
  by (cases "stop_on c s"; cases c; cases a)
     (auto simp: play_arg_on_def stop_on_def join_client join_if_joinable_def notify_defs notify_eq Let_def
        split: if_splits)

text \<open>None of the three operations makes a non-negative position negative.\<close>

lemma stop_on_position: "0 \<le> mCurrentPosition s \<Longrightarrow> 0 \<le> mCurrentPosition (final (stop_on c s))"
  by (cases c) (simp_all add: stop_def [symmetric] stop_final stop_on_worker notify_defs notify_eq)

lemma play_arg_on_position:
  "0 \<le> mCurrentPosition s \<Longrightarrow> 0 \<le> mCurrentPosition (final (play_arg_on c a s))"
  by (cases "stop_on c s"; cases c; cases a)
     (auto simp: play_arg_on_def stop_on_def join_client join_if_joinable_def notify_defs notify_eq Let_def
        split: if_splits)

lemma player_next_on_position:
  "0 \<le> mCurrentPosition s \<Longrightarrow> 0 \<le> mCurrentPosition (final (player_next_on c s))"
  by (cases "mQueue s") (simp_all add: player_next_on_def stop_on_position play_arg_on_position)

lemma track_finished_position:
  "0 \<le> mCurrentPosition s \<Longrightarrow> 0 \<le> mCurrentPosition (final (track_finished s))"
  by (simp add: track_finished_def play_arg_on_position player_next_on_position enqueue_def)

lemma opened_player_eval:
  "mIsPlaying opened_player" "\<not> mIsPaused opened_player" "\<not> mShouldStop opened_player"
  "mPlaybackThread opened_player" "mRepeatMode opened_player = None_mode"
  "mDuration opened_player = 180" "mCurrentTrack opened_player = ''t.mp3''"
  "mQueue opened_player = [''t.mp3'']" "mObservers opened_player = [1]"
  "observer_throws opened_player = quiet"
  "fired opened_player = [TrackChanged ''t.mp3'', PlaybackStarted]"
  by (simp_all add: op_defs fixture_defs)

section \<open>play\<close>

text \<open>
  C1. For every track identifier and every prior state of the player: when \<^verbatim>\<open>play(uri)\<close>
  returns, the queue is exactly \<open>[uri]\<close> (entries enqueued before are discarded), the
  current track is \<open>uri\<close>, \<^verbatim>\<open>isPlaying()\<close> is true, and track-changed(uri) has
  been fired immediately before playback-started, after the playback-stopped of the
  \<^verbatim>\<open>stop()\<close> at the head of the body if a track was playing; every observer has
  received them in that order. The call returns whenever no registered observer throws.
\<close>

theorem play_postcondition:
  "((\<forall>ob\<in>set (mObservers s). \<forall>e. \<not> observer_throws s ob e) \<longrightarrow> returns (play uri s)) \<and>
   (\<forall>s'. play uri s = Returned s' \<longrightarrow>
      mQueue s' = [uri] \<and> mCurrentTrack s' = uri \<and> isPlaying s' \<and>
      fired s' = fired s @ (if mIsPlaying s then [PlaybackStopped] else [])
                   @ [TrackChanged uri, PlaybackStarted] \<and>
      delivered s' = delivered s
         @ (if mIsPlaying s then map (\<lambda>ob. (ob, PlaybackStopped)) (mObservers s) else [])
         @ map (\<lambda>ob. (ob, TrackChanged uri)) (mObservers s)
         @ map (\<lambda>ob. (ob, PlaybackStarted)) (mObservers s))"
  by (auto simp: op_defs invoked_no_throw split: if_splits)

text \<open>The scenario of the specification: two tracks enqueued, then \<^verbatim>\<open>play("c")\<close>.\<close>

theorem play_postcondition_witness:
  "play ''c'' (enqueue ''b'' (enqueue ''a'' observed_player))
     = Returned (final (play ''c'' (enqueue ''b'' (enqueue ''a'' observed_player)))) \<and>
   mQueue (final (play ''c'' (enqueue ''b'' (enqueue ''a'' observed_player)))) = [''c''] \<and>
   mCurrentTrack (final (play ''c'' (enqueue ''b'' (enqueue ''a'' observed_player)))) = ''c'' \<and>
   isPlaying (final (play ''c'' (enqueue ''b'' (enqueue ''a'' observed_player)))) \<and>
   fired (final (play ''c'' (enqueue ''b'' (enqueue ''a'' observed_player))))
     = [TrackChanged ''c'', PlaybackStarted]"
proof -
  let ?s = "enqueue ''b'' (enqueue ''a'' observed_player)"
  have quiet: "\<forall>ob\<in>set (mObservers ?s). \<forall>e. \<not> observer_throws ?s ob e"
    by (simp add: enqueue_def addObserver_def fixture_defs)
  have start: "fired ?s = []" "\<not> mIsPlaying ?s"
    by (simp_all add: enqueue_def addObserver_def fixture_defs)
  from quiet play_postcondition [of ?s "''c''"] have "returns (play ''c'' ?s)"
    by blast
  then have ret: "play ''c'' ?s = Returned (final (play ''c'' ?s))"
    by (rule returns_final)
  with play_postcondition [of ?s "''c''"] start show ?thesis
    by auto
qed

section \<open>next on an exhausted queue\<close>

text \<open>
  Called from a thread other than the worker, \<^verbatim>\<open>next()\<close> on a queue of at most one
  entry is \<^verbatim>\<open>stop()\<close>: the state afterwards is Stopped, the queue is untouched,
  nothing but the playback-stopped of \<^verbatim>\<open>stop()\<close> is fired, and the call returns
  unless an observer throws from its playback-stopped callback.
\<close>

lemma next_exhausted_queue_client:
  "length (mQueue s) \<le> 1 \<Longrightarrow>
     player_next s = stop s \<and>
     state_of (final (player_next s)) = Stopped \<and>
     mQueue (final (player_next s)) = mQueue s \<and>
     fired (final (player_next s)) = fired s @ (if mIsPlaying s then [PlaybackStopped] else []) \<and>
     ((\<forall>ob\<in>set (mObservers s). \<not> observer_throws s ob PlaybackStopped) \<longrightarrow> returns (player_next s))"
  by (auto simp: op_defs)

text \<open>
  Executed by the worker while a track plays, the same call does not return: the join inside
  \<^verbatim>\<open>stop()\<close> is a join of the worker with itself.
\<close>

lemma next_exhausted_queue_worker:
  "length (mQueue s) \<le> 1 \<Longrightarrow> mIsPlaying s \<Longrightarrow> mPlaybackThread s \<Longrightarrow>
     player_next_on WorkerThread s =
       Thrown (s\<lparr>mShouldStop := True, mIsPlaying := False, mIsPaused := False\<rparr>)"
  by (simp add: player_next_on_def stop_on_worker)

text \<open>
  C2. The claim (with at most one entry in the queue \<^verbatim>\<open>next()\<close> calls
  \<^verbatim>\<open>stop()\<close>, returns and leaves the state Stopped; an exhausted queue is not an
  error) against the code at the end of a track. After \<^verbatim>\<open>play("t.mp3")\<close> the queue
  holds that one track; when the worker finds the position at the duration of 180 seconds
  it calls \<^verbatim>\<open>next()\<close> itself. The call leaves by the exception of the join: the
  current track is still set, playback-stopped has not been fired, and the worker's pass
  ends in that exception.
\<close>

theorem worker_next_exhausted_queue_fails:
  "length (mQueue opened_player) \<le> 1 \<and>
   \<not> returns (player_next_on WorkerThread opened_player) \<and>
   mCurrentTrack (final (player_next_on WorkerThread opened_player)) = ''t.mp3'' \<and>
   count_list (fired (final (player_next_on WorkerThread opened_player))) PlaybackStopped = 0 \<and>
   fst (playbackThreadFunction_iteration 180 opened_player) = Retired \<and>
   \<not> returns (snd (playbackThreadFunction_iteration 180 opened_player)) \<and>
   mCurrentTrack (final (snd (playbackThreadFunction_iteration 180 opened_player))) = ''t.mp3'' \<and>
   count_list (fired (final (snd (playbackThreadFunction_iteration 180 opened_player))))
     PlaybackStopped = 0"
proof -
  have direct: "player_next_on WorkerThread opened_player =
      Thrown (opened_player\<lparr>mShouldStop := True, mIsPlaying := False, mIsPaused := False\<rparr>)"
    by (rule next_exhausted_queue_worker) (simp_all add: opened_player_eval)
  let ?s1 = "opened_player\<lparr>mCurrentPosition := 180, fired := fired opened_player @ [PlaybackProgress 180 180],
      delivered := delivered opened_player @ [(1, PlaybackProgress 180 180)]\<rparr>"
  have progress: "notifyPlaybackProgress 180 180
      (opened_player\<lparr>mCurrentPosition := 180\<rparr>) = Returned ?s1"
    by (simp add: notify_defs notify_eq opened_player_eval quiet_def)
  have "track_finished ?s1 = player_next_on WorkerThread ?s1"
    by (simp add: track_finished_def opened_player_eval)
  also have "\<dots> = Thrown (?s1\<lparr>mShouldStop := True, mIsPlaying := False, mIsPaused := False\<rparr>)"
    by (rule next_exhausted_queue_worker) (simp_all add: opened_player_eval)
  finally have finished: "track_finished ?s1 =
      Thrown (?s1\<lparr>mShouldStop := True, mIsPlaying := False, mIsPaused := False\<rparr>)" .
  have "playbackThreadFunction_iteration 180 opened_player = (Retired, track_finished ?s1)"
    by (simp add: playbackThreadFunction_iteration_def opened_player_eval progress)
  with finished direct show ?thesis
    by (simp add: opened_player_eval)
qed

lemma playing_player_eval:
  "mIsPlaying playing_player" "\<not> mIsPaused playing_player" "\<not> mShouldStop playing_player"
  "mCurrentTrack playing_player = ''t.mp3''" "mQueue playing_player = [''t.mp3'']"
  "mObservers playing_player = [1]" "observer_throws playing_player = quiet"
  "fired playing_player = [TrackChanged ''t.mp3'', PlaybackStarted]"
  "returns (play ''t.mp3'' observed_player)"
  by (simp_all add: op_defs fixture_defs)

lemma repeating_player_eval:
  "mIsPlaying repeating_player" "\<not> mIsPaused repeating_player" "\<not> mShouldStop repeating_player"
  "mRepeatMode repeating_player = All" "mDuration repeating_player = 180"
  "mCurrentTrack repeating_player = ''t.mp3''" "mQueue repeating_player = [''t.mp3'']"
  "mObservers repeating_player = [1]" "observer_throws repeating_player = quiet"
  by (simp_all add: op_defs fixture_defs)

section \<open>stop\<close>




section \<open>Completion under RepeatMode::All\<close>

text \<open>
  C4. When a pass of the worker's loop finds the position at or beyond the duration while
  the repeat mode is All (the player playing, not paused, not told to stop, and the progress
  notification returned), the pass ends the worker with \<^verbatim>\<open>next()\<close>, executed
  by the worker, applied to the state in which the current track has been appended to the tail of the queue: the queue
  handed to \<^verbatim>\<open>next()\<close> is the old queue followed by the current track, which
  occurs in it exactly once more than before.
\<close>

theorem repeat_all_requeues:
  assumes playing: "mIsPlaying s" "\<not> mShouldStop s" "\<not> mIsPaused s"
    and mode: "mRepeatMode s = All" and finished: "mDuration s \<le> elapsed"
    and progress: "notifyPlaybackProgress elapsed (mDuration s) (s\<lparr>mCurrentPosition := elapsed\<rparr>)
                     = Returned s1"
  shows "playbackThreadFunction_iteration elapsed s =
           (Retired, player_next_on WorkerThread (enqueue (mCurrentTrack s) s1)) \<and>
         mQueue (enqueue (mCurrentTrack s) s1) = mQueue s @ [mCurrentTrack s] \<and>
         count_list (mQueue (enqueue (mCurrentTrack s) s1)) (mCurrentTrack s) =
           Suc (count_list (mQueue s) (mCurrentTrack s))"
proof -
  have "final (notifyPlaybackProgress elapsed (mDuration s) (s\<lparr>mCurrentPosition := elapsed\<rparr>)) = s1"
    by (simp add: progress)
  then have s1: "mCurrentPosition s1 = elapsed" "mDuration s1 = mDuration s" "mRepeatMode s1 = All"
    "mCurrentTrack s1 = mCurrentTrack s" "mQueue s1 = mQueue s"
    using mode by (auto simp: notify_defs notify_eq)
  have "playbackThreadFunction_iteration elapsed s = (Retired, track_finished s1)"
    using playing finished s1 by (simp add: playbackThreadFunction_iteration_def progress)
  moreover have "track_finished s1 = player_next_on WorkerThread (enqueue (mCurrentTrack s) s1)"
    using s1 by (simp add: track_finished_def)
  ultimately show ?thesis
    using s1 by (simp add: enqueue_def)
qed

text \<open>A track of 180 seconds, polled at 180 seconds.\<close>

theorem repeat_all_requeues_witness:
  "mIsPlaying repeating_player \<and> \<not> mShouldStop repeating_player \<and> \<not> mIsPaused repeating_player \<and>
   mRepeatMode repeating_player = All \<and> mDuration repeating_player \<le> 180 \<and>
   returns (notifyPlaybackProgress 180 (mDuration repeating_player)
              (repeating_player\<lparr>mCurrentPosition := 180\<rparr>)) \<and>
   fst (playbackThreadFunction_iteration 180 repeating_player) = Retired \<and>
   mQueue (enqueue (mCurrentTrack repeating_player)
             (final (notifyPlaybackProgress 180 (mDuration repeating_player)
                       (repeating_player\<lparr>mCurrentPosition := 180\<rparr>))))
     = [''t.mp3'', ''t.mp3'']"
proof -
  let ?n = "notifyPlaybackProgress 180 (mDuration repeating_player)
              (repeating_player\<lparr>mCurrentPosition := 180\<rparr>)"
  have ret: "returns ?n"
    by (simp add: notify_defs notify_eq repeating_player_eval quiet_def)
  then have progress: "?n = Returned (final ?n)"
    by (rule returns_final)
  have hyps: "mIsPlaying repeating_player" "\<not> mShouldStop repeating_player"
    "\<not> mIsPaused repeating_player" "mRepeatMode repeating_player = All"
    "mDuration repeating_player \<le> 180"
    by (simp_all add: repeating_player_eval)
  from repeat_all_requeues [OF hyps progress]
  have "fst (playbackThreadFunction_iteration 180 repeating_player) = Retired"
    and "mQueue (enqueue (mCurrentTrack repeating_player) (final ?n))
           = mQueue repeating_player @ [mCurrentTrack repeating_player]"
    by simp_all
  with hyps ret show ?thesis
    by (simp add: repeating_player_eval)
qed

section \<open>Failure to open a track\<close>

text \<open>
  C5. When the rendering backend fails to open the current track, the worker calls it once
  (no retry), leaves the state Stopped, fires playback-stopped and retires. The failure
  happens in the worker's own step: \<open>play\<close> does not consult the backend, so it cannot reach
  the caller of \<^verbatim>\<open>play()\<close>. The worker's step itself returns normally when no
  observer throws from its playback-stopped callback, and then every observer has been
  notified.
\<close>

theorem open_failure_stops:
  "\<not> backend (mCurrentTrack s) \<Longrightarrow>
     fst (playbackThreadFunction_open backend s) = Retired \<and>
     state_of (final (snd (playbackThreadFunction_open backend s))) = Stopped \<and>
     fired (final (snd (playbackThreadFunction_open backend s))) = fired s @ [PlaybackStopped] \<and>
     opened (final (snd (playbackThreadFunction_open backend s))) = opened s @ [mCurrentTrack s] \<and>
     ((\<forall>ob\<in>set (mObservers s). \<not> observer_throws s ob PlaybackStopped) \<longrightarrow>
        returns (snd (playbackThreadFunction_open backend s)) \<and>
        delivered (final (snd (playbackThreadFunction_open backend s))) =
          delivered s @ map (\<lambda>ob. (ob, PlaybackStopped)) (mObservers s))"
  by (auto simp: playbackThreadFunction_open_def op_defs invoked_no_throw)

text \<open>\<^verbatim>\<open>play("t.mp3")\<close> returns; the worker then meets a backend that opens nothing.\<close>

theorem open_failure_stops_witness:
  "returns (play ''t.mp3'' observed_player) \<and>
   \<not> no_backend (mCurrentTrack playing_player) \<and>
   fst (playbackThreadFunction_open no_backend playing_player) = Retired \<and>
   state_of (final (snd (playbackThreadFunction_open no_backend playing_player))) = Stopped \<and>
   opened (final (snd (playbackThreadFunction_open no_backend playing_player))) = [''t.mp3''] \<and>
   returns (snd (playbackThreadFunction_open no_backend playing_player))"
proof -
  have fails: "\<not> no_backend (mCurrentTrack playing_player)"
    by (simp add: no_backend_def)
  have quiet: "\<forall>ob\<in>set (mObservers playing_player). \<not> observer_throws playing_player ob PlaybackStopped"
    by (simp add: playing_player_eval quiet_def)
  have start: "opened playing_player = []"
    by (simp add: op_defs fixture_defs)
  from open_failure_stops [of no_backend playing_player, OF fails] quiet
  have "fst (playbackThreadFunction_open no_backend playing_player) = Retired"
    and "state_of (final (snd (playbackThreadFunction_open no_backend playing_player))) = Stopped"
    and "opened (final (snd (playbackThreadFunction_open no_backend playing_player)))
           = opened playing_player @ [mCurrentTrack playing_player]"
    and "returns (snd (playbackThreadFunction_open no_backend playing_player))"
    by blast+
  with fails start show ?thesis
    by (simp add: playing_player_eval)
qed

section \<open>removeObserver\<close>

text \<open>
  C6, as the code has it. \<^verbatim>\<open>removeObserver(h)\<close> erases every registration equal
  to \<open>h\<close> (the erase/remove_if idiom), keeping the others in their order, so that \<open>h\<close> is
  not registered afterwards however often it was added. When \<open>h\<close> is not registered the
  call changes nothing at all: no error, and the registry, hence every later notification,
  is as before.
\<close>

theorem removeObserver_removes_all:
  "removeObserver ob s = s\<lparr>mObservers := filter (\<lambda>obs. obs \<noteq> ob) (mObservers s)\<rparr> \<and>
   ob \<notin> set (mObservers (removeObserver ob s)) \<and>
   (ob \<notin> set (mObservers s) \<longrightarrow> removeObserver ob s = s)"
proof -
  have "ob \<notin> set (mObservers s) \<Longrightarrow> filter (\<lambda>obs. obs \<noteq> ob) (mObservers s) = mObservers s"
    by (induction "mObservers s") (auto simp: filter_id_conv)
  then show ?thesis
    by (auto simp: removeObserver_def remove_if_filter)
qed

text \<open>An absent handle, and a handle registered twice among others.\<close>

theorem removeObserver_removes_all_witness:
  "2 \<notin> set (mObservers observed_player) \<and>
   removeObserver 2 observed_player = observed_player \<and>
   mObservers (removeObserver 1 (addObserver 2 (addObserver 1 observed_player))) = [2]"
proof -
  have absent: "2 \<notin> set (mObservers observed_player)"
    by (simp add: addObserver_def fixture_defs)
  have "mObservers (addObserver 2 (addObserver 1 observed_player)) = [1, 1, 2]"
    by (simp add: addObserver_def fixture_defs)
  with removeObserver_removes_all [of 1 "addObserver 2 (addObserver 1 observed_player)"]
  have "mObservers (removeObserver 1 (addObserver 2 (addObserver 1 observed_player))) = [2]"
    by simp
  moreover from absent removeObserver_removes_all [of 2 observed_player]
  have "removeObserver 2 observed_player = observed_player"
    by blast
  ultimately show ?thesis
    using absent by blast
qed

text \<open>
  The claim as stated (only the first match goes, a second registration stays) fails for
  an observer registered twice: both registrations are erased, where removing the first
  match would leave one.
\<close>

theorem removeObserver_counterexample:
  "mObservers (removeObserver 1 (addObserver 1 observed_player))
     \<noteq> remove1 1 (mObservers (addObserver 1 observed_player))"
  by (simp add: removeObserver_def addObserver_def fixture_defs)

section \<open>Observers that throw\<close>

text \<open>
  C7, as the code has it. The notify functions have no handler. If the registry is
  \<open>pre @ ob # post\<close>, no observer of \<open>pre\<close> throws on the event and \<open>ob\<close> does, then the
  observers of \<open>pre\<close> and \<open>ob\<close> have been invoked, none of \<open>post\<close> has, the exception
  leaves the notify function, and the operation that notified is abandoned at that point
  (what would follow is skipped). If no registered observer throws, all are invoked in
  registration order and the notify function returns.
\<close>

theorem observer_exception_propagates:
  "(mObservers s = pre @ ob # post \<and> (\<forall>x\<in>set pre. \<not> observer_throws s x e) \<and>
    observer_throws s ob e \<longrightarrow>
      notify e s = Thrown (s\<lparr>fired := fired s @ [e],
                            delivered := delivered s @ map (\<lambda>x. (x, e)) (pre @ [ob])\<rparr>) \<and>
      and_then (notify e s) f = notify e s) \<and>
   ((\<forall>x\<in>set (mObservers s). \<not> observer_throws s x e) \<longrightarrow>
      notify e s = Returned (s\<lparr>fired := fired s @ [e],
                              delivered := delivered s @ map (\<lambda>x. (x, e)) (mObservers s)\<rparr>))"
  by (auto simp: notify_eq invoked_no_throw invoked_split)

lemma faulty_player_eval:
  "mIsPlaying faulty_player" "\<not> mIsPaused faulty_player"
  "mObservers faulty_player = [2, 1, 3]" "observer_throws faulty_player = faulty"
  "delivered faulty_player =
     [(2, TrackChanged ''t.mp3''), (1, TrackChanged ''t.mp3''), (3, TrackChanged ''t.mp3''),
      (2, PlaybackStarted), (1, PlaybackStarted), (3, PlaybackStarted)]"
  by (simp_all add: op_defs fixture_defs)

text \<open>Observers 2, 1, 3 with 1 throwing on playback-paused.\<close>

theorem observer_exception_propagates_witness:
  "mObservers faulty_player = [2] @ 1 # [3] \<and>
   \<not> observer_throws faulty_player 2 PlaybackPaused \<and>
   observer_throws faulty_player 1 PlaybackPaused \<and>
   \<not> returns (notify PlaybackPaused faulty_player) \<and>
   delivered (final (notify PlaybackPaused faulty_player)) =
     delivered faulty_player @ [(2, PlaybackPaused), (1, PlaybackPaused)]"
proof -
  have obs: "mObservers faulty_player = [2] @ 1 # [3]"
    and ok: "\<not> observer_throws faulty_player 2 PlaybackPaused"
    and bad: "observer_throws faulty_player 1 PlaybackPaused"
    by (simp_all add: faulty_player_eval faulty_def)
  from ok have pre: "\<forall>x\<in>set [2]. \<not> observer_throws faulty_player x PlaybackPaused"
    by simp
  from observer_exception_propagates [of faulty_player "[2]" 1 "[3]" PlaybackPaused] obs pre bad
  have "notify PlaybackPaused faulty_player =
          Thrown (faulty_player\<lparr>fired := fired faulty_player @ [PlaybackPaused],
             delivered := delivered faulty_player @ map (\<lambda>x. (x, PlaybackPaused)) ([2] @ [1])\<rparr>)"
    by blast
  with obs ok bad show ?thesis
    by simp
qed

text \<open>
  The claim as stated (the failure is caught, later observers are still notified) fails:
  \<^verbatim>\<open>pause()\<close> on that player leaves by the exception, and observer 3 never receives
  playback-paused.
\<close>

theorem observer_exception_counterexample:
  "\<not> returns (pause faulty_player) \<and>
   (3, PlaybackPaused) \<notin> set (delivered (final (pause faulty_player)))"
  by (simp add: pause_def notify_defs notify_eq faulty_player_eval faulty_def)

section \<open>The position\<close>

lemma exec_position:
  "0 \<le> mCurrentPosition s \<Longrightarrow> nonneg_time a \<Longrightarrow> 0 \<le> mCurrentPosition (final (exec backend a s))"
  by (cases a)
     (auto simp: op_defs playbackThreadFunction_open_def playbackThreadFunction_iteration_def
        track_finished_position split: list.splits)

lemma run_position:
  "0 \<le> mCurrentPosition s \<Longrightarrow> \<forall>a\<in>set as. nonneg_time a \<Longrightarrow> 0 \<le> mCurrentPosition (run backend as s)"
  by (induction as arbitrary: s) (auto simp: exec_position)

text \<open>
  C8, as the code has it. \<^verbatim>\<open>seek(position)\<close> stores its argument unchecked, so
  \<^verbatim>\<open>getCurrentPosition()\<close> returns it afterwards, whatever its sign. In every state
  reached from a new player by public operations and steps of the worker, the position is
  non-negative provided every argument of \<^verbatim>\<open>seek\<close> and every clock reading of the
  worker was.
\<close>

theorem position_nonnegative:
  "((\<forall>a\<in>set as. nonneg_time a) \<longrightarrow>
      0 \<le> getCurrentPosition (run backend as (BasicMusicPlayer th))) \<and>
   getCurrentPosition (final (seek position s)) = position"
proof
  show "(\<forall>a\<in>set as. nonneg_time a) \<longrightarrow>
      0 \<le> getCurrentPosition (run backend as (BasicMusicPlayer th))"
    using run_position [of "BasicMusicPlayer th" as backend]
    by (simp add: getCurrentPosition_def BasicMusicPlayer_def)
  show "getCurrentPosition (final (seek position s)) = position"
    by (simp add: op_defs)
qed

text \<open>A run with a seek to 5 seconds.\<close>

theorem position_nonnegative_witness:
  "nonneg_time (Play ''t.mp3'') \<and> nonneg_time WorkerOpens \<and> nonneg_time (WorkerPolls 2) \<and>
   nonneg_time (Seek 5) \<and> nonneg_time Pause \<and>
   0 \<le> getCurrentPosition
         (run openAudioFile [Play ''t.mp3'', WorkerOpens, WorkerPolls 2, Seek 5, Pause]
            (BasicMusicPlayer quiet)) \<and>
   getCurrentPosition (final (seek 5 playing_player)) = 5"
proof -
  have args: "\<forall>a\<in>set [Play ''t.mp3'', WorkerOpens, WorkerPolls 2, Seek 5, Pause]. nonneg_time a"
    by simp
  with position_nonnegative
         [of "[Play ''t.mp3'', WorkerOpens, WorkerPolls 2, Seek 5, Pause]" openAudioFile quiet 5 playing_player]
  show ?thesis
    by simp
qed

text \<open>
  The claim as stated (for an arbitrary real argument of \<^verbatim>\<open>seek\<close>) fails for
  \<^verbatim>\<open>seek(-1)\<close> on a new player.
\<close>

theorem position_counterexample:
  "getCurrentPosition (run openAudioFile [Seek (- 1)] (BasicMusicPlayer quiet)) < 0"
  by (simp add: op_defs BasicMusicPlayer_def)

section \<open>pause and resume\<close>

text \<open>
  C9. In every state that \<^verbatim>\<open>play(uri)\<close> returned, \<^verbatim>\<open>isPlaying()\<close> is true,
  \<^verbatim>\<open>pause()\<close> leaves the state Paused, and \<^verbatim>\<open>resume()\<close> after it restores
  \<^verbatim>\<open>isPlaying()\<close> with the track unchanged; the two calls fire playback-paused and
  playback-started and nothing else, so track-changed is not fired again. In general
  \<^verbatim>\<open>resume()\<close> in state Paused clears the pause flag, fires playback-started and
  leaves the state Playing; in any other state it returns at once with nothing changed and
  nothing fired.
\<close>

theorem pause_resume:
  "(\<forall>s0 s1. play uri s0 = Returned s1 \<longrightarrow>
      isPlaying s1 \<and> state_of (final (pause s1)) = Paused \<and>
      isPlaying (final (resume (final (pause s1)))) \<and>
      mCurrentTrack (final (resume (final (pause s1)))) = uri \<and>
      fired (final (resume (final (pause s1)))) = fired s1 @ [PlaybackPaused, PlaybackStarted]) \<and>
   (state_of s = Paused \<longrightarrow>
      resume s = notifyPlaybackStarted (s\<lparr>mIsPaused := False\<rparr>) \<and>
      state_of (final (resume s)) = Playing \<and>
      fired (final (resume s)) = fired s @ [PlaybackStarted]) \<and>
   (state_of s \<noteq> Paused \<longrightarrow> resume s = Returned s)"
  by (auto simp: op_defs split: if_splits)

text \<open>\<^verbatim>\<open>play("t.mp3")\<close>, pause, resume; and resume on a player that never played.\<close>

theorem pause_resume_witness:
  "play ''t.mp3'' observed_player = Returned playing_player \<and>
   isPlaying playing_player \<and>
   state_of (final (pause playing_player)) = Paused \<and>
   isPlaying (final (resume (final (pause playing_player)))) \<and>
   fired (final (resume (final (pause playing_player))))
     = [TrackChanged ''t.mp3'', PlaybackStarted, PlaybackPaused, PlaybackStarted] \<and>
   state_of (final (resume (final (pause playing_player)))) = Playing \<and>
   state_of observed_player \<noteq> Paused \<and>
   resume observed_player = Returned observed_player"
proof -
  have started: "play ''t.mp3'' observed_player = Returned playing_player"
    unfolding playing_player_def by (rule returns_final) (simp add: playing_player_eval)
  have idle: "state_of observed_player \<noteq> Paused"
    by (simp add: state_of_def addObserver_def fixture_defs)
  from pause_resume [of "''t.mp3''" "final (pause playing_player)"] started
  have run: "isPlaying playing_player" "state_of (final (pause playing_player)) = Paused"
    "isPlaying (final (resume (final (pause playing_player))))"
    "fired (final (resume (final (pause playing_player))))
       = fired playing_player @ [PlaybackPaused, PlaybackStarted]"
    by blast+
  from pause_resume [of "''t.mp3''" "final (pause playing_player)"] run(2)
  have "state_of (final (resume (final (pause playing_player)))) = Playing"
    by blast
  moreover from pause_resume [of "''t.mp3''" observed_player] idle
  have "resume observed_player = Returned observed_player"
    by blast
  ultimately show ?thesis
    using started idle run by (simp add: playing_player_eval)
qed

section \<open>next on a queue of several entries\<close>

lemma player_next_on_returned:
  "2 \<le> length (mQueue s) \<Longrightarrow> player_next_on c s = Returned s' \<Longrightarrow>
     mQueue s' = [hd (mQueue s)] \<and> mCurrentTrack s' = hd (mQueue s) \<and> isPlaying s'"
proof -
  assume long: "2 \<le> length (mQueue s)" and ret: "player_next_on c s = Returned s'"
  from long obtain x rest where q: "mQueue s = x # rest"
    by (cases "mQueue s") auto
  from long have "\<not> length (mQueue s) \<le> 1"
    by simp
  then have "player_next_on c s = play_arg_on c (ByValue x) (s\<lparr>mQueue := rest\<rparr>)"
    unfolding player_next_on_def by (simp add: q)
  with ret have "play_arg_on c (ByValue x) (s\<lparr>mQueue := rest\<rparr>) = Returned s'"
    by simp
  from play_arg_on_cases [OF this] q show ?thesis
    by (simp add: isPlaying_def)
qed

text \<open>
  C10, as the code has it. With at least two entries in the queue, a call of
  \<^verbatim>\<open>next()\<close> from a thread other than the worker returns whenever no observer
  throws; and whichever thread executes it, when \<^verbatim>\<open>next()\<close> returns the queue holds
  exactly the entry that was at its head, that entry is the current track and the player is
  playing: every other enqueued entry is discarded by the \<^verbatim>\<open>play()\<close> of the popped
  head. When \<^verbatim>\<open>play(uri)\<close> placed the head there and only \<^verbatim>\<open>enqueue\<close> calls
  (at least one) followed, the queue is \<open>uri\<close> followed by the enqueued entries, the head
  is the current track, and \<^verbatim>\<open>next()\<close> plays \<open>uri\<close> again instead of advancing.
\<close>

theorem next_plays_head:
  "(2 \<le> length (mQueue s) \<longrightarrow>
      ((\<forall>ob\<in>set (mObservers s). \<forall>e. \<not> observer_throws s ob e) \<longrightarrow> returns (player_next s)) \<and>
      (\<forall>c s'. player_next_on c s = Returned s' \<longrightarrow>
         mQueue s' = [hd (mQueue s)] \<and> mCurrentTrack s' = hd (mQueue s) \<and> isPlaying s')) \<and>
   (\<forall>c s0 s1 s2. play uri s0 = Returned s1 \<and> uris \<noteq> [] \<and>
        player_next_on c (fold enqueue uris s1) = Returned s2 \<longrightarrow>
      mQueue (fold enqueue uris s1) = uri # uris \<and>
      mCurrentTrack (fold enqueue uris s1) = uri \<and>
      mQueue s2 = [uri] \<and> mCurrentTrack s2 = uri)"
proof (intro conjI impI allI)
  assume "2 \<le> length (mQueue s)" "\<forall>ob\<in>set (mObservers s). \<forall>e. \<not> observer_throws s ob e"
  then show "returns (player_next s)"
    by (cases "mQueue s") (auto simp: op_defs invoked_no_throw)
next
  fix c s'
  assume "2 \<le> length (mQueue s)" "player_next_on c s = Returned s'"
  then have "mQueue s' = [hd (mQueue s)] \<and> mCurrentTrack s' = hd (mQueue s) \<and> isPlaying s'"
    by (rule player_next_on_returned)
  then show "mQueue s' = [hd (mQueue s)]" "mCurrentTrack s' = hd (mQueue s)" "isPlaying s'"
    by simp_all
next
  fix c s0 s1 s2
  assume a: "play uri s0 = Returned s1 \<and> uris \<noteq> [] \<and>
        player_next_on c (fold enqueue uris s1) = Returned s2"
  then have "play_arg_on ClientThread (ByValue uri) s0 = Returned s1"
    by (simp add: play_def play_arg_def)
  from play_arg_on_cases [OF this]
  have s1: "mQueue s1 = [uri]" "mCurrentTrack s1 = uri"
    by simp_all
  then have q: "mQueue (fold enqueue uris s1) = uri # uris"
    and t: "mCurrentTrack (fold enqueue uris s1) = uri"
    by (simp_all add: fold_enqueue)
  from a q have long: "2 \<le> length (mQueue (fold enqueue uris s1))"
    by (cases uris) simp_all
  from a have ret: "player_next_on c (fold enqueue uris s1) = Returned s2"
    by simp
  from player_next_on_returned [OF long ret] q
  have n: "mQueue s2 = [uri]" "mCurrentTrack s2 = uri"
    by simp_all
  from q t n
  show "mQueue (fold enqueue uris s1) = uri # uris" "mCurrentTrack (fold enqueue uris s1) = uri"
    "mQueue s2 = [uri]" "mCurrentTrack s2 = uri"
    by simp_all
qed

text \<open>\<^verbatim>\<open>play("t.mp3")\<close>, two tracks enqueued, \<^verbatim>\<open>next()\<close>: \<open>t.mp3\<close> again.\<close>

theorem next_plays_head_witness:
  "play ''t.mp3'' observed_player = Returned playing_player \<and>
   2 \<le> length (mQueue (fold enqueue [''a.mp3'', ''b.mp3''] playing_player)) \<and>
   returns (player_next (fold enqueue [''a.mp3'', ''b.mp3''] playing_player)) \<and>
   mQueue (fold enqueue [''a.mp3'', ''b.mp3''] playing_player) = [''t.mp3'', ''a.mp3'', ''b.mp3''] \<and>
   mCurrentTrack (fold enqueue [''a.mp3'', ''b.mp3''] playing_player) = ''t.mp3'' \<and>
   mQueue (final (player_next (fold enqueue [''a.mp3'', ''b.mp3''] playing_player))) = [''t.mp3''] \<and>
   mCurrentTrack (final (player_next (fold enqueue [''a.mp3'', ''b.mp3''] playing_player))) = ''t.mp3''"
proof -
  let ?s = "fold enqueue [''a.mp3'', ''b.mp3''] playing_player"
  have started: "play ''t.mp3'' observed_player = Returned playing_player"
    unfolding playing_player_def by (rule returns_final) (simp add: playing_player_eval)
  have q: "mQueue ?s = [''t.mp3'', ''a.mp3'', ''b.mp3'']"
    and quiet: "\<forall>ob\<in>set (mObservers ?s). \<forall>e. \<not> observer_throws ?s ob e"
    by (simp_all add: enqueue_def playing_player_eval quiet_def)
  then have long: "2 \<le> length (mQueue ?s)"
    by simp
  with next_plays_head [of ?s] quiet have ret: "returns (player_next ?s)"
    by blast
  then have "player_next ?s = Returned (final (player_next ?s))"
    by (rule returns_final)
  then have next_ret: "player_next_on ClientThread ?s = Returned (final (player_next ?s))"
    by (simp add: player_next_def)
  have uris: "[''a.mp3'', ''b.mp3''] \<noteq> []"
    by simp
  from next_plays_head [of ?s "''t.mp3''" "[''a.mp3'', ''b.mp3'']"] started uris next_ret
  have "mCurrentTrack ?s = ''t.mp3''"
    and "mQueue (final (player_next ?s)) = [''t.mp3'']"
    and "mCurrentTrack (final (player_next ?s)) = ''t.mp3''"
    by blast+
  with started long ret q show ?thesis
    by simp
qed

text \<open>
  The claim as stated takes the head of every queue of two or more entries to be the formerly
  current track. That fails on a player that has never played, with two tracks enqueued: the
  head is not the current track (there is none), and \<^verbatim>\<open>next()\<close> starts the head,
  replaying nothing.
\<close>

theorem next_head_counterexample:
  "2 \<le> length (mQueue fresh_queue_player) \<and>
   returns (player_next fresh_queue_player) \<and>
   hd (mQueue fresh_queue_player) \<noteq> mCurrentTrack fresh_queue_player \<and>
   mCurrentTrack (final (player_next fresh_queue_player)) \<noteq> mCurrentTrack fresh_queue_player"
  by (simp add: op_defs fixture_defs)

end
